theory Spec2Isabelle
  imports Complex_Main "HOL-Library.Sublist"
begin

section \<open>The pipeline notebook: records, processors, pipeline\<close>

text \<open>
  The notebook \<^verbatim>\<open>pipeline.ipynb\<close> defines a data class \<^verbatim>\<open>TextObject\<close>, two processors
  (\<^verbatim>\<open>LanguageDetector\<close>, \<^verbatim>\<open>SentimentDetector\<close>) and a \<^verbatim>\<open>Pipeline\<close> whose \<^verbatim>\<open>run\<close> method
  loops over records and processors. Records are Python objects that the processors
  change in place, so they live in a store indexed by reference; a list of records is
  a list of references, in which the same object may occur more than once.
  Calls are effects: every \<^verbatim>\<open>processor.process(text)\<close> and every call to one of the two
  external libraries is appended to a trace carried in the state.
\<close>

subsection \<open>Data\<close>

text \<open>
  \<^verbatim>\<open>
  @dataclass
  class TextObject:
      text: str
      language: str = None
      sentiment: str = None
  \<close>
  \<^verbatim>\<open>None\<close> is the unset value. The sentiment holds the polarity the library returns
  (a Python float that the code only stores, never computes with).
\<close>

record text_object =
  "text" :: string
  language :: "string option"
  sentiment :: "real option"

text \<open>The generated constructor; an omitted keyword argument is its default \<^verbatim>\<open>None\<close>.\<close>

definition TextObject :: "string \<Rightarrow> string option \<Rightarrow> real option \<Rightarrow> text_object" where
  "TextObject t l s = \<lparr>text = t, language = l, sentiment = s\<rparr>"

text \<open>
  One element of what \<^verbatim>\<open>langdetect.detect_langs\<close> returns: the code reads its attributes
  \<^verbatim>\<open>lang\<close> and \<^verbatim>\<open>prob\<close>.
\<close>

record detected_language =
  lang :: string
  prob :: real

datatype error = NameError | IndexError | LangDetectException | OtherException string

text \<open>
  The two libraries are not part of the repository. They are parameters of the model:
  functions of the text that return a value or raise.
\<close>

record collaborators =
  detect_langs :: "string \<Rightarrow> error + detected_language list"
  polarity :: "string \<Rightarrow> error + real"

datatype processor = LanguageDetector | SentimentDetector

type_synonym ref = nat

datatype event =
  Call_process processor ref
| Call_detect_langs string
| Call_polarity string

record state =
  objects :: "ref \<Rightarrow> text_object"
  trace :: "event list"

text \<open>
  A call either returns (\<open>Inr\<close>, with the state it leaves) or raises (\<open>Inl\<close>, with the
  exception and the state at that moment: what was written before stays written).
\<close>

type_synonym result = "(error \<times> state) + state"

definition final :: "result \<Rightarrow> state" where
  "final r = (case r of Inl (e, st) \<Rightarrow> st | Inr st \<Rightarrow> st)"

definition raised :: "result \<Rightarrow> error option" where
  "raised r = (case r of Inl (e, st) \<Rightarrow> Some e | Inr st \<Rightarrow> None)"

definition emit :: "event \<Rightarrow> state \<Rightarrow> state" where
  "emit ev st = st\<lparr>trace := trace st @ [ev]\<rparr>"

definition set_language :: "ref \<Rightarrow> string \<Rightarrow> state \<Rightarrow> state" where
  "set_language r v st = st\<lparr>objects := (objects st)(r := (objects st r)\<lparr>language := Some v\<rparr>)\<rparr>"

definition set_sentiment :: "ref \<Rightarrow> real \<Rightarrow> state \<Rightarrow> state" where
  "set_sentiment r v st = st\<lparr>objects := (objects st)(r := (objects st r)\<lparr>sentiment := Some v\<rparr>)\<rparr>"

subsection \<open>Processors\<close>

text \<open>
  \<^verbatim>\<open>sorted(xs, key=k, reverse=True)\<close>: Python's sort is stable, also when reversed, so
  this is the stable sort by descending key.
\<close>

definition sorted_reverse :: "('a \<Rightarrow> real) \<Rightarrow> 'a list \<Rightarrow> 'a list" where
  "sorted_reverse key xs = sort_key (\<lambda>x. - key x) xs"

text \<open>\<^verbatim>\<open>xs[0]\<close> raises \<^verbatim>\<open>IndexError\<close> on the empty list.\<close>

definition index0 :: "'a list \<Rightarrow> error + 'a" where
  "index0 xs = (case xs of [] \<Rightarrow> Inl IndexError | x # _ \<Rightarrow> Inr x)"

text \<open>
  \<^verbatim>\<open>
  def process(self, text_object):
      detected_languages = langdetect.detect_langs(text_object.text)
      if len(detected_languages) > 0:
          text_object.language = sorted(detected_languages, key=lambda x: x.prob, reverse=True)[0].lang
  \<close>
\<close>

definition LanguageDetector_process :: "collaborators \<Rightarrow> ref \<Rightarrow> state \<Rightarrow> result" where
  "LanguageDetector_process c text_object st =
     (let st1 = emit (Call_detect_langs (text (objects st text_object))) st in
      case detect_langs c (text (objects st text_object)) of
        Inl e \<Rightarrow> Inl (e, st1)
      | Inr detected_languages \<Rightarrow>
          if length detected_languages > 0 then
            (case index0 (sorted_reverse prob detected_languages) of
               Inl e \<Rightarrow> Inl (e, st1)
             | Inr best \<Rightarrow> Inr (set_language text_object (lang best) st1))
          else Inr st1)"

text \<open>
  \<^verbatim>\<open>
  def process(self, text_object):
      if text_object.language == 'en':
          text_object.sentiment = textblob.TextBlob(text_object.text).sentiment.polarity
  \<close>
\<close>

definition SentimentDetector_process :: "collaborators \<Rightarrow> ref \<Rightarrow> state \<Rightarrow> result" where
  "SentimentDetector_process c text_object st =
     (if language (objects st text_object) = Some ''en'' then
        (let st1 = emit (Call_polarity (text (objects st text_object))) st in
         case polarity c (text (objects st text_object)) of
           Inl e \<Rightarrow> Inl (e, st1)
         | Inr s \<Rightarrow> Inr (set_sentiment text_object s st1))
      else Inr st)"

text \<open>Dynamic dispatch of \<^verbatim>\<open>processor.process(text)\<close> on the processor's class.\<close>

fun process :: "collaborators \<Rightarrow> processor \<Rightarrow> ref \<Rightarrow> state \<Rightarrow> result" where
  "process c LanguageDetector r st = LanguageDetector_process c r st"
| "process c SentimentDetector r st = SentimentDetector_process c r st"

subsection \<open>Pipeline\<close>

text \<open>
  \<^verbatim>\<open>
  @dataclass
  class Pipeline(object):
      processors: list

      def run(self, texts):
          for text in texts:
              for processor in processors:
                  processor.process(text)
  \<close>
  The inner loop iterates the name \<^verbatim>\<open>processors\<close>, which is not a local of \<^verbatim>\<open>run\<close>: Python
  looks it up among the module's globals each time the inner loop starts, and raises
  \<^verbatim>\<open>NameError\<close> when it is not bound. The field \<^verbatim>\<open>self.processors\<close> is not read.
\<close>

record Pipeline =
  processors :: "processor list"

record globals =
  global_processors :: "processor list option"

fun run_processors :: "collaborators \<Rightarrow> processor list \<Rightarrow> ref \<Rightarrow> state \<Rightarrow> result" where
  "run_processors c [] r st = Inr st"
| "run_processors c (p # ps) r st =
     (case process c p r (emit (Call_process p r) st) of
        Inl e \<Rightarrow> Inl e
      | Inr st' \<Rightarrow> run_processors c ps r st')"

fun run_texts :: "collaborators \<Rightarrow> globals \<Rightarrow> ref list \<Rightarrow> state \<Rightarrow> result" where
  "run_texts c g [] st = Inr st"
| "run_texts c g (r # rs) st =
     (case global_processors g of
        None \<Rightarrow> Inl (NameError, st)
      | Some ps \<Rightarrow>
          (case run_processors c ps r st of
             Inl e \<Rightarrow> Inl e
           | Inr st' \<Rightarrow> run_texts c g rs st'))"

definition run :: "Pipeline \<Rightarrow> globals \<Rightarrow> collaborators \<Rightarrow> ref list \<Rightarrow> state \<Rightarrow> result" where
  "run self g c texts st = run_texts c g texts st"

subsection \<open>Observations\<close>

text \<open>
  The calls \<^verbatim>\<open>processor.process(text)\<close> of a trace, in order, each as the record and the
  processor it was made on.
\<close>

fun calls :: "event list \<Rightarrow> (ref \<times> processor) list" where
  "calls [] = []"
| "calls (Call_process p r # evs) = (r, p) # calls evs"
| "calls (Call_detect_langs t # evs) = calls evs"
| "calls (Call_polarity t # evs) = calls evs"

text \<open>
  The calls of a list of (record, processor) pairs made one after the other, each as the
  inner loop makes it: the call is recorded, \<^verbatim>\<open>process\<close> is applied to the record in the
  state the previous call left, and an exception ends the sequence.
\<close>

fun apply_calls :: "collaborators \<Rightarrow> (ref \<times> processor) list \<Rightarrow> state \<Rightarrow> result" where
  "apply_calls c [] st = Inr st"
| "apply_calls c ((r, p) # xs) st =
     (case process c p r (emit (Call_process p r) st) of
        Inl e \<Rightarrow> Inl e
      | Inr st' \<Rightarrow> apply_calls c xs st')"

text \<open>What the caller reads in its list \<^verbatim>\<open>texts\<close>: the objects behind the references.\<close>

definition observe :: "state \<Rightarrow> ref list \<Rightarrow> text_object list" where
  "observe st texts = map (objects st) texts"

text \<open>The second object is the first with fields filled in: same text, nothing cleared.\<close>

definition fills :: "text_object \<Rightarrow> text_object \<Rightarrow> bool" where
  "fills a b \<longleftrightarrow>
     text b = text a \<and> (language a \<noteq> None \<longrightarrow> language b \<noteq> None) \<and>
     (sentiment a \<noteq> None \<longrightarrow> sentiment b \<noteq> None)"

subsection \<open>Example inputs\<close>

text \<open>
  A language library that raises on the empty text (as \<^verbatim>\<open>langdetect\<close> does, finding no
  features in it), ranks three candidates for one text with a tie at the top, and returns
  no candidate for a text of digits; and a sentiment library.
\<close>

definition example_detect_langs :: "string \<Rightarrow> error + detected_language list" where
  "example_detect_langs t =
     (if t = '''' then Inl LangDetectException
      else if t = ''Hello'' then
        Inr [\<lparr>lang = ''fr'', prob = 0.2\<rparr>, \<lparr>lang = ''en'', prob = 0.4\<rparr>, \<lparr>lang = ''de'', prob = 0.4\<rparr>]
      else if t = ''Hallo'' then Inr [\<lparr>lang = ''de'', prob = 0.9\<rparr>]
      else Inr [])"

definition example_polarity :: "string \<Rightarrow> error + real" where
  "example_polarity t = (if t = ''Hello'' then Inr 0.75 else Inr 0)"

definition example_collaborators :: collaborators where
  "example_collaborators = \<lparr>detect_langs = example_detect_langs, polarity = example_polarity\<rparr>"

text \<open>
  Five records: two fresh ones, one with empty text, one constructed with its language
  given, one with both optional fields given.
\<close>

definition example_objects :: "ref \<Rightarrow> text_object" where
  "example_objects r =
     (if r = 0 then TextObject ''Hello'' None None
      else if r = 1 then TextObject ''Hallo'' None None
      else if r = 2 then TextObject '''' None None
      else if r = 3 then TextObject ''Hello'' (Some ''en'') None
      else TextObject ''12345'' (Some ''fr'') (Some 0.5))"

definition example_state :: state where
  "example_state = \<lparr>objects = example_objects, trace = []\<rparr>"

subsection \<open>One record at a time\<close>

text \<open>
  A processor reads and writes only the record it is called on, so what a call does is a
  function of that record alone. \<open>obj_step\<close> is one call of \<^verbatim>\<open>process\<close> seen on the record
  (the new record, or the exception); \<open>obj_run\<close> is the inner loop (the record when the loop
  ends or is left by an exception, and that exception); \<open>store_run\<close> is the outer loop over a
  store, for any such function of a record. They are views of the model above, shown below
  to agree with it, and are used to compare two runs.
\<close>

definition obj_step :: "collaborators \<Rightarrow> processor \<Rightarrow> text_object \<Rightarrow> error + text_object" where
  "obj_step c p a =
     (case p of
        LanguageDetector \<Rightarrow>
          (case detect_langs c (text a) of
             Inl e \<Rightarrow> Inl e
           | Inr ds \<Rightarrow>
               if ds = [] then Inr a
               else (case index0 (sorted_reverse prob ds) of
                       Inl e \<Rightarrow> Inl e
                     | Inr b \<Rightarrow> Inr (a\<lparr>language := Some (lang b)\<rparr>)))
      | SentimentDetector \<Rightarrow>
          if language a = Some ''en'' then
            (case polarity c (text a) of
               Inl e \<Rightarrow> Inl e
             | Inr s \<Rightarrow> Inr (a\<lparr>sentiment := Some s\<rparr>))
          else Inr a)"

fun obj_run :: "collaborators \<Rightarrow> processor list \<Rightarrow> text_object \<Rightarrow> text_object \<times> error option" where
  "obj_run c [] a = (a, None)"
| "obj_run c (p # ps) a =
     (case obj_step c p a of Inl e \<Rightarrow> (a, Some e) | Inr b \<Rightarrow> obj_run c ps b)"

fun store_run :: "(text_object \<Rightarrow> text_object \<times> error option) \<Rightarrow> ref list \<Rightarrow>
    (ref \<Rightarrow> text_object) \<Rightarrow> (ref \<Rightarrow> text_object) \<times> error option" where
  "store_run G [] h = (h, None)"
| "store_run G (r # rs) h =
     (case snd (G (h r)) of
        Some e \<Rightarrow> (h(r := fst (G (h r))), Some e)
      | None \<Rightarrow> store_run G rs (h(r := fst (G (h r)))))"

text \<open>
  What the language library makes of a text: an exception, no candidate, or the code of
  the first candidate of greatest confidence.
\<close>

definition top_language :: "collaborators \<Rightarrow> string \<Rightarrow> error + string option" where
  "top_language c t =
     (case detect_langs c t of
        Inl e \<Rightarrow> Inl e
      | Inr ds \<Rightarrow>
          if ds = [] then Inr None
          else (case index0 (sorted_reverse prob ds) of
                  Inl e \<Rightarrow> Inl e
                | Inr b \<Rightarrow> Inr (Some (lang b))))"

text \<open>
  Any number of SentimentDetectors in a row act as one when \<open>b\<close> holds and as none
  otherwise.
\<close>

definition sentiment_block :: "collaborators \<Rightarrow> bool \<Rightarrow> text_object \<Rightarrow> text_object \<times> error option" where
  "sentiment_block c b a =
     (if b \<and> language a = Some ''en'' then
        (case polarity c (text a) of
           Inl e \<Rightarrow> (a, Some e)
         | Inr s \<Rightarrow> (a\<lparr>sentiment := Some s\<rparr>, None))
      else (a, None))"

text \<open>
  SentimentDetectors, then the first LanguageDetector, then the rest of the sequence,
  of which only its SentimentDetectors still matter.
\<close>

definition two_phase :: "collaborators \<Rightarrow> bool \<Rightarrow> bool \<Rightarrow> text_object \<Rightarrow> text_object \<times> error option" where
  "two_phase c b1 b2 a =
     (case snd (sentiment_block c b1 a) of
        Some e \<Rightarrow> sentiment_block c b1 a
      | None \<Rightarrow>
          (case obj_step c LanguageDetector (fst (sentiment_block c b1 a)) of
             Inl e \<Rightarrow> (fst (sentiment_block c b1 a), Some e)
           | Inr d \<Rightarrow> sentiment_block c b2 d))"

text \<open>
  The processor orders for which a second run changes nothing: all but those that begin
  with a SentimentDetector, contain a LanguageDetector and have no SentimentDetector after
  the first LanguageDetector.
\<close>

fun rerun_safe :: "processor list \<Rightarrow> bool" where
  "rerun_safe [] = True"
| "rerun_safe (LanguageDetector # ps) = True"
| "rerun_safe (SentimentDetector # ps) =
     (LanguageDetector \<notin> set ps \<or>
      SentimentDetector \<in> set (dropWhile (\<lambda>p. p \<noteq> LanguageDetector) ps))"

section \<open>Basic facts\<close>

lemmas example_defs =
  example_detect_langs_def example_polarity_def example_collaborators_def example_objects_def
  example_state_def TextObject_def

lemma final_simps [simp]: "final (Inr st) = st" "final (Inl (e, st)) = st"
  by (simp_all add: final_def)

lemma raised_simps [simp]: "raised (Inr st) = None" "raised (Inl (e, st)) = Some e"
  by (simp_all add: raised_def)

lemma emit_simps [simp]: "objects (emit ev st) = objects st" "trace (emit ev st) = trace st @ [ev]"
  by (simp_all add: emit_def)

lemma set_language_simps [simp]:
  "objects (set_language r v st) = (objects st)(r := (objects st r)\<lparr>language := Some v\<rparr>)"
  "trace (set_language r v st) = trace st"
  by (simp_all add: set_language_def)

lemma set_sentiment_simps [simp]:
  "objects (set_sentiment r v st) = (objects st)(r := (objects st r)\<lparr>sentiment := Some v\<rparr>)"
  "trace (set_sentiment r v st) = trace st"
  by (simp_all add: set_sentiment_def)

lemma result_cases:
  obtains (Ok) st' where "res = Inr st'" | (Raise) e st' where "res = Inl (e, st')"
  by (cases res) auto

text \<open>
  The head of the descending sort exists for a non-empty list, is one of its elements
  and has the greatest key: indexing at 0 behind the length test never raises.
\<close>

lemma index0_sorted_reverse:
  assumes "xs \<noteq> []"
  shows "\<exists>x \<in> set xs. index0 (sorted_reverse key xs) = Inr x \<and> (\<forall>y \<in> set xs. key y \<le> key x)"
proof -
  let ?f = "\<lambda>x. - key x"
  from assms have "sort_key ?f xs \<noteq> []"
    by (metis length_sort length_0_conv)
  then obtain z zs where zs: "sort_key ?f xs = z # zs"
    by (cases "sort_key ?f xs") auto
  have "sorted (map ?f (z # zs))"
    using sorted_sort_key [of ?f xs] by (simp add: zs)
  then have le: "\<forall>y \<in> set (z # zs). ?f z \<le> ?f y"
    by auto
  have mem: "set (z # zs) = set xs"
    using set_sort [of ?f xs] by (simp add: zs)
  have "z \<in> set xs" using mem by auto
  moreover have "index0 (sorted_reverse key xs) = Inr z"
    by (simp add: index0_def sorted_reverse_def zs)
  moreover have "\<forall>y \<in> set xs. key y \<le> key z"
    using le mem by auto
  ultimately show ?thesis by blast
qed

lemma LanguageDetector_process_cases:
  "LanguageDetector_process c r st =
     (case detect_langs c (text (objects st r)) of
        Inl e \<Rightarrow> Inl (e, emit (Call_detect_langs (text (objects st r))) st)
      | Inr ds \<Rightarrow>
          if ds = [] then Inr (emit (Call_detect_langs (text (objects st r))) st)
          else (case index0 (sorted_reverse prob ds) of
                  Inl e \<Rightarrow> Inl (e, emit (Call_detect_langs (text (objects st r))) st)
                | Inr b \<Rightarrow> Inr (set_language r (lang b) (emit (Call_detect_langs (text (objects st r))) st))))"
  by (simp add: LanguageDetector_process_def Let_def split: sum.splits)

subsection \<open>The loops, one iteration at a time\<close>

lemma run_processors_Cons:
  "run_processors c (p # ps) r st =
     (if raised (process c p r (emit (Call_process p r) st)) = None
      then run_processors c ps r (final (process c p r (emit (Call_process p r) st)))
      else process c p r (emit (Call_process p r) st))"
  by (cases "process c p r (emit (Call_process p r) st)" rule: result_cases) simp_all

lemma run_texts_Cons:
  "global_processors g = Some ps \<Longrightarrow>
   run_texts c g (r # rs) st =
     (if raised (run_processors c ps r st) = None
      then run_texts c g rs (final (run_processors c ps r st))
      else run_processors c ps r st)"
  by (cases "run_processors c ps r st" rule: result_cases) simp_all

lemma run_texts_unbound:
  "global_processors g = None \<Longrightarrow>
   run_texts c g rs st = (if rs = [] then Inr st else Inl (NameError, st))"
  by (cases rs) simp_all

declare run_processors.simps(2) [simp del]

declare run_texts.simps(2) [simp del]

subsection \<open>Processors only fill fields in\<close>

lemma fills_refl: "fills a a"
  by (simp add: fills_def)

lemma fills_trans: "fills a b \<Longrightarrow> fills b d \<Longrightarrow> fills a d"
  by (simp add: fills_def)

lemma process_fills: "fills (objects st r') (objects (final (process c p r st)) r')"
  by (cases p)
     (auto simp add: LanguageDetector_process_cases SentimentDetector_process_def Let_def fills_def
           split: sum.splits)

lemma run_processors_fills:
  "fills (objects st r') (objects (final (run_processors c ps r st)) r')"
proof (induction ps arbitrary: st)
  case Nil
  show ?case by (simp add: fills_refl)
next
  case (Cons p ps)
  let ?res = "process c p r (emit (Call_process p r) st)"
  have step: "fills (objects st r') (objects (final ?res) r')"
    using process_fills [of "emit (Call_process p r) st" r' c p r] by simp
  show ?case
  proof (cases "raised ?res = None")
    case True
    then show ?thesis
      using fills_trans [OF step Cons.IH [of "final ?res"]]
      by (simp add: run_processors_Cons)
  next
    case False
    then show ?thesis using step by (auto simp add: run_processors_Cons)
  qed
qed

lemma run_texts_fills:
  "fills (objects st r') (objects (final (run_texts c g rs st)) r')"
proof (cases "global_processors g")
  case None
  then show ?thesis by (simp add: run_texts_unbound fills_refl)
next
  case (Some ps)
  show ?thesis
  proof (induction rs arbitrary: st)
    case Nil
    show ?case by (simp add: fills_refl)
  next
    case (Cons r rs)
    let ?res = "run_processors c ps r st"
    have step: "fills (objects st r') (objects (final ?res) r')"
      by (rule run_processors_fills)
    show ?case
    proof (cases "raised ?res = None")
      case True
      then show ?thesis
        using fills_trans [OF step Cons.IH [of "final ?res"]]
        by (simp add: run_texts_Cons [OF Some])
    next
      case False
      then show ?thesis using step by (auto simp add: run_texts_Cons [OF Some])
    qed
  qed
qed

subsection \<open>A call on one record leaves the others alone\<close>

lemma process_frame: "r' \<noteq> r \<Longrightarrow> objects (final (process c p r st)) r' = objects st r'"
  by (cases p)
     (auto simp add: LanguageDetector_process_cases SentimentDetector_process_def Let_def
           split: sum.splits)

lemma run_processors_frame:
  "r' \<noteq> r \<Longrightarrow> objects (final (run_processors c ps r st)) r' = objects st r'"
proof (induction ps arbitrary: st)
  case Nil
  show ?case by simp
next
  case (Cons p ps)
  then show ?case
    using process_frame [of r' r c p "emit (Call_process p r) st"]
    by (auto simp add: run_processors_Cons)
qed

lemma run_texts_frame:
  "r' \<notin> set rs \<Longrightarrow> objects (final (run_texts c g rs st)) r' = objects st r'"
proof (cases "global_processors g")
  case None
  then show ?thesis by (simp add: run_texts_unbound)
next
  case (Some ps)
  assume "r' \<notin> set rs"
  then show ?thesis
  proof (induction rs arbitrary: st)
    case Nil
    show ?case by simp
  next
    case (Cons r rs)
    then show ?case
      using run_processors_frame [of r' r c ps st]
      by (auto simp add: run_texts_Cons [OF Some])
  qed
qed

subsection \<open>The calls a run makes\<close>

lemma calls_append: "calls (xs @ ys) = calls xs @ calls ys"
  by (induction xs rule: calls.induct) simp_all

lemma process_calls: "calls (trace (final (process c p r st))) = calls (trace st)"
  by (cases p)
     (auto simp add: LanguageDetector_process_cases SentimentDetector_process_def Let_def calls_append
           split: sum.splits)

lemma emit_calls:
  "calls (trace (final (process c p r (emit (Call_process p r) st)))) = calls (trace st) @ [(r, p)]"
  using process_calls [of c p r "emit (Call_process p r) st"] by (simp add: calls_append)

lemma run_processors_calls:
  "raised (run_processors c ps r st) = None \<Longrightarrow>
   calls (trace (final (run_processors c ps r st))) = calls (trace st) @ map (Pair r) ps"
proof (induction ps arbitrary: st)
  case Nil
  show ?case by simp
next
  case (Cons p ps)
  let ?res = "process c p r (emit (Call_process p r) st)"
  from Cons.prems have ok: "raised ?res = None"
    by (auto simp add: run_processors_Cons split: if_splits)
  with Cons.prems have "raised (run_processors c ps r (final ?res)) = None"
    by (simp add: run_processors_Cons)
  then have "calls (trace (final (run_processors c ps r (final ?res)))) =
      calls (trace (final ?res)) @ map (Pair r) ps"
    by (rule Cons.IH)
  then show ?case
    using ok by (simp add: run_processors_Cons emit_calls)
qed

lemma run_processors_calls_prefix:
  "prefix (calls (trace (final (run_processors c ps r st)))) (calls (trace st) @ map (Pair r) ps)"
proof (induction ps arbitrary: st)
  case Nil
  show ?case by simp
next
  case (Cons p ps)
  let ?res = "process c p r (emit (Call_process p r) st)"
  show ?case
  proof (cases "raised ?res = None")
    case True
    have "prefix (calls (trace (final (run_processors c ps r (final ?res)))))
        (calls (trace (final ?res)) @ map (Pair r) ps)"
      by (rule Cons.IH)
    then show ?thesis
      using True by (simp add: run_processors_Cons emit_calls)
  next
    case False
    then have "run_processors c (p # ps) r st = ?res"
      by (auto simp add: run_processors_Cons)
    then show ?thesis
      by (simp add: emit_calls)
  qed
qed

lemma run_texts_calls:
  assumes g: "global_processors g = Some ps"
  shows "raised (run_texts c g rs st) = None \<Longrightarrow>
     calls (trace (final (run_texts c g rs st))) =
       calls (trace st) @ concat (map (\<lambda>r. map (Pair r) ps) rs)"
proof (induction rs arbitrary: st)
  case Nil
  show ?case by simp
next
  case (Cons r rs)
  let ?res = "run_processors c ps r st"
  from Cons.prems have ok: "raised ?res = None"
    by (auto simp add: run_texts_Cons [OF g] split: if_splits)
  with Cons.prems have "raised (run_texts c g rs (final ?res)) = None"
    by (simp add: run_texts_Cons [OF g])
  then have "calls (trace (final (run_texts c g rs (final ?res)))) =
      calls (trace (final ?res)) @ concat (map (\<lambda>r. map (Pair r) ps) rs)"
    by (rule Cons.IH)
  then show ?case
    using ok by (simp add: run_texts_Cons [OF g] run_processors_calls)
qed

lemma run_texts_calls_prefix:
  assumes g: "global_processors g = Some ps"
  shows "prefix (calls (trace (final (run_texts c g rs st))))
     (calls (trace st) @ concat (map (\<lambda>r. map (Pair r) ps) rs))"
proof (induction rs arbitrary: st)
  case Nil
  show ?case by simp
next
  case (Cons r rs)
  let ?res = "run_processors c ps r st"
  show ?case
  proof (cases "raised ?res = None")
    case True
    have "prefix (calls (trace (final (run_texts c g rs (final ?res)))))
        (calls (trace (final ?res)) @ concat (map (\<lambda>r. map (Pair r) ps) rs))"
      by (rule Cons.IH)
    then show ?thesis
      using True by (simp add: run_texts_Cons [OF g] run_processors_calls)
  next
    case False
    then have eq: "run_texts c g (r # rs) st = ?res"
      by (auto simp add: run_texts_Cons [OF g])
    have "prefix (calls (trace (final ?res))) (calls (trace st) @ map (Pair r) ps)"
      by (rule run_processors_calls_prefix)
    then have "prefix (calls (trace (final ?res)))
        ((calls (trace st) @ map (Pair r) ps) @ concat (map (\<lambda>r. map (Pair r) ps) rs))"
      by (rule prefix_prefix)
    then show ?thesis
      by (simp add: eq)
  qed
qed

subsection \<open>A run as a sequence of applications\<close>

lemma apply_calls_append:
  "apply_calls c (xs @ ys) st =
     (case apply_calls c xs st of Inl e \<Rightarrow> Inl e | Inr st' \<Rightarrow> apply_calls c ys st')"
  by (induction xs arbitrary: st) (auto split: sum.splits)

lemma run_processors_apply_calls:
  "run_processors c ps r st = apply_calls c (map (Pair r) ps) st"
  by (induction ps arbitrary: st) (simp_all add: run_processors.simps split: sum.splits)

lemma run_texts_apply_calls:
  assumes "global_processors g = Some ps"
  shows "run_texts c g rs st = apply_calls c (concat (map (\<lambda>r. map (Pair r) ps) rs)) st"
  using assms
  by (induction rs arbitrary: st)
     (simp_all add: run_texts.simps apply_calls_append run_processors_apply_calls split: sum.splits)

subsection \<open>The loops seen on one record and on the store\<close>

lemma process_obj:
  "objects (final (process c p r st)) =
     (objects st)(r := (case obj_step c p (objects st r) of Inl e \<Rightarrow> objects st r | Inr b \<Rightarrow> b)) \<and>
   raised (process c p r st) = (case obj_step c p (objects st r) of Inl e \<Rightarrow> Some e | Inr b \<Rightarrow> None)"
  by (cases p)
     (auto simp add: LanguageDetector_process_cases SentimentDetector_process_def Let_def obj_step_def
           split: sum.splits)

lemma run_processors_obj:
  "objects (final (run_processors c ps r st)) = (objects st)(r := fst (obj_run c ps (objects st r))) \<and>
   raised (run_processors c ps r st) = snd (obj_run c ps (objects st r))"
proof (induction ps arbitrary: st)
  case Nil
  show ?case by simp
next
  case (Cons p ps)
  let ?st0 = "emit (Call_process p r) st"
  let ?res = "process c p r ?st0"
  note po = process_obj [of c p r ?st0]
  show ?case
  proof (cases "obj_step c p (objects st r)")
    case (Inl e)
    with po have "raised ?res = Some e" "objects (final ?res) = objects st"
      by simp_all
    with Inl show ?thesis
      by (simp add: run_processors_Cons)
  next
    case (Inr b)
    with po have ok: "raised ?res = None" and ob: "objects (final ?res) = (objects st)(r := b)"
      by simp_all
    have step: "run_processors c (p # ps) r st = run_processors c ps r (final ?res)"
      by (simp add: run_processors_Cons ok)
    have orun: "obj_run c (p # ps) (objects st r) = obj_run c ps b"
      by (simp add: Inr)
    have br: "objects (final ?res) r = b"
      by (simp add: ob)
    have upd: "(objects (final ?res))(r := fst (obj_run c ps b)) = (objects st)(r := fst (obj_run c ps b))"
      by (simp add: ob)
    show ?thesis
      unfolding step orun upd [symmetric]
      using Cons.IH [of "final ?res"] unfolding br .
  qed
qed

lemma run_texts_store:
  assumes g: "global_processors g = Some ps"
  shows "objects (final (run_texts c g rs st)) = fst (store_run (obj_run c ps) rs (objects st)) \<and>
     raised (run_texts c g rs st) = snd (store_run (obj_run c ps) rs (objects st))"
proof (induction rs arbitrary: st)
  case Nil
  show ?case by simp
next
  case (Cons r rs)
  let ?res = "run_processors c ps r st"
  let ?G = "obj_run c ps"
  have ob: "objects (final ?res) = (objects st)(r := fst (?G (objects st r)))"
    and ra: "raised ?res = snd (?G (objects st r))"
    using run_processors_obj [of c ps r st] by blast+
  show ?case
  proof (cases "snd (?G (objects st r))")
    case None
    have "run_texts c g (r # rs) st = run_texts c g rs (final ?res)"
      by (simp add: run_texts_Cons [OF g] ra None)
    moreover have "store_run ?G (r # rs) (objects st) = store_run ?G rs (objects (final ?res))"
      by (simp add: None ob)
    ultimately show ?thesis
      using Cons.IH [of "final ?res"] by (simp only:)
  next
    case (Some e)
    have "run_texts c g (r # rs) st = ?res"
      by (simp add: run_texts_Cons [OF g] ra Some)
    moreover have "store_run ?G (r # rs) (objects st) = (objects (final ?res), Some e)"
      by (simp add: Some ob)
    ultimately show ?thesis
      by (simp add: ra Some)
  qed
qed

subsection \<open>Running the outer loop again\<close>

text \<open>
  If running the inner loop on its own result changes nothing (same record, same
  exception or none), then running the outer loop on its own result changes nothing,
  also when a record occurs several times in the list.
\<close>

lemma store_run_fixed:
  "G (h r') = (h r', None) \<Longrightarrow> G (fst (store_run G rs h) r') = (fst (store_run G rs h) r', None)"
proof (induction rs arbitrary: h)
  case Nil
  then show ?case by simp
next
  case (Cons r rs)
  let ?h1 = "h(r := fst (G (h r)))"
  have keep: "G (?h1 r') = (?h1 r', None)"
    using Cons.prems by (cases "r = r'") simp_all
  show ?case
  proof (cases "snd (G (h r))")
    case None
    have eq: "store_run G (r # rs) h = store_run G rs ?h1"
      by (simp add: None)
    show ?thesis
      unfolding eq by (rule Cons.IH [of ?h1, OF keep])
  next
    case (Some e)
    have eq: "store_run G (r # rs) h = (?h1, Some e)"
      by (simp add: Some)
    show ?thesis
      unfolding eq fst_conv by (rule keep)
  qed
qed

lemma store_run_twice:
  assumes idem: "\<And>a. G (fst (G a)) = G a"
  shows "store_run G rs (fst (store_run G rs h)) = store_run G rs h"
proof (induction rs arbitrary: h)
  case Nil
  show ?case by simp
next
  case (Cons r rs)
  let ?h1 = "h(r := fst (G (h r)))"
  have same: "G (?h1 r) = G (h r)"
    by (simp add: idem)
  have upd: "?h1(r := fst (G (h r))) = ?h1"
    by simp
  show ?case
  proof (cases "snd (G (h r))")
    case (Some e)
    have first: "store_run G (r # rs) h = (?h1, Some e)"
      by (simp add: Some)
    have "store_run G (r # rs) ?h1 = (?h1(r := fst (G (h r))), Some e)"
      using Some by (simp only: store_run.simps same option.case)
    then show ?thesis
      by (simp only: first fst_conv upd)
  next
    case None
    let ?h2 = "fst (store_run G rs ?h1)"
    have first: "store_run G (r # rs) h = store_run G rs ?h1"
      by (simp add: None)
    have "G (?h1 r) = (?h1 r, None)"
      using None same by (simp add: prod_eq_iff)
    then have fx: "G (?h2 r) = (?h2 r, None)"
      by (rule store_run_fixed)
    have triv: "?h2(r := ?h2 r) = ?h2"
      by (rule fun_upd_triv)
    have "store_run G (r # rs) ?h2 = store_run G rs (?h2(r := ?h2 r))"
      by (simp only: store_run.simps fx snd_conv fst_conv option.case)
    also have "\<dots> = store_run G rs ?h2"
      by (simp only: triv)
    also have "\<dots> = store_run G rs ?h1"
      by (rule Cons.IH)
    finally show ?thesis
      by (simp only: first)
  qed
qed

subsection \<open>Running the inner loop again\<close>

lemma obj_step_language_twice:
  "obj_step c LanguageDetector a = Inr b \<Longrightarrow> obj_step c LanguageDetector b = Inr b"
  by (auto simp add: obj_step_def split: sum.splits if_splits)

lemma obj_step_language_sentiment:
  "obj_step c LanguageDetector a = Inr a \<Longrightarrow>
   obj_step c LanguageDetector (a\<lparr>sentiment := x\<rparr>) = Inr (a\<lparr>sentiment := x\<rparr>)"
proof -
  assume q: "obj_step c LanguageDetector a = Inr a"
  show ?thesis
  proof (cases "detect_langs c (text a)")
    case (Inl e)
    with q show ?thesis by (simp add: obj_step_def)
  next
    case (Inr ds)
    show ?thesis
    proof (cases "ds = []")
      case True
      with Inr show ?thesis by (simp add: obj_step_def)
    next
      case False
      then obtain d where d: "index0 (sorted_reverse prob ds) = Inr d"
        using index0_sorted_reverse [of ds prob] by blast
      from q Inr False d have "a\<lparr>language := Some (lang d)\<rparr> = a"
        by (simp add: obj_step_def)
      then have "language a = Some (lang d)"
        by (metis text_object.select_convs(2) text_object.surjective text_object.update_convs(2))
      then show ?thesis
        using Inr False d by (simp add: obj_step_def)
    qed
  qed
qed

lemma obj_run_quiet:
  "(LanguageDetector \<in> set ps \<longrightarrow> obj_step c LanguageDetector a = Inr a) \<Longrightarrow>
   obj_run c ps a = sentiment_block c (SentimentDetector \<in> set ps) a"
proof (induction ps arbitrary: a)
  case Nil
  show ?case by (simp add: sentiment_block_def)
next
  case (Cons p ps)
  show ?case
  proof (cases p)
    case LanguageDetector
    with Cons.prems have q: "obj_step c LanguageDetector a = Inr a" by simp
    then have "obj_run c (p # ps) a = obj_run c ps a"
      using LanguageDetector by simp
    also have "\<dots> = sentiment_block c (SentimentDetector \<in> set ps) a"
      using q by (intro Cons.IH) simp
    also have "\<dots> = sentiment_block c (SentimentDetector \<in> set (p # ps)) a"
      using LanguageDetector by simp
    finally show ?thesis .
  next
    case SentimentDetector
    from Cons.prems SentimentDetector
    have q: "LanguageDetector \<in> set ps \<longrightarrow> obj_step c LanguageDetector a = Inr a" by simp
    show ?thesis
    proof (cases "language a = Some ''en''")
      case False
      then have "obj_run c (p # ps) a = obj_run c ps a"
        using SentimentDetector by (simp add: obj_step_def)
      also have "\<dots> = sentiment_block c (SentimentDetector \<in> set ps) a"
        using q by (rule Cons.IH)
      also have "\<dots> = sentiment_block c (SentimentDetector \<in> set (p # ps)) a"
        using False by (simp add: sentiment_block_def)
      finally show ?thesis .
    next
      case True
      show ?thesis
      proof (cases "polarity c (text a)")
        case (Inl e)
        with True SentimentDetector show ?thesis
          by (simp add: obj_step_def sentiment_block_def)
      next
        case (Inr s)
        let ?b = "a\<lparr>sentiment := Some s\<rparr>"
        have q': "LanguageDetector \<in> set ps \<longrightarrow> obj_step c LanguageDetector ?b = Inr ?b"
          using q obj_step_language_sentiment [of c a "Some s"] by blast
        have "obj_run c (p # ps) a = obj_run c ps ?b"
          using True Inr SentimentDetector by (simp add: obj_step_def)
        also have "\<dots> = sentiment_block c (SentimentDetector \<in> set ps) ?b"
          using q' by (rule Cons.IH)
        also have "\<dots> = sentiment_block c (SentimentDetector \<in> set (p # ps)) a"
          using True Inr SentimentDetector by (simp add: sentiment_block_def)
        finally show ?thesis .
      qed
    qed
  qed
qed

lemma obj_run_append:
  "obj_run c (xs @ ys) a =
     (case snd (obj_run c xs a) of
        Some e \<Rightarrow> obj_run c xs a
      | None \<Rightarrow> obj_run c ys (fst (obj_run c xs a)))"
  by (induction xs arbitrary: a) (auto split: sum.splits option.splits)

lemma sentiment_block_twice:
  "sentiment_block c b (fst (sentiment_block c b a)) = sentiment_block c b a"
  by (auto simp add: sentiment_block_def split: sum.splits)

lemma rerun_safe_split:
  assumes "rerun_safe (pre @ LanguageDetector # rest)" and "LanguageDetector \<notin> set pre"
    and "SentimentDetector \<in> set pre"
  shows "SentimentDetector \<in> set rest"
proof (cases pre)
  case Nil
  with assms(3) show ?thesis by simp
next
  case (Cons p pre')
  with assms(2) have p: "p = SentimentDetector" and pre': "LanguageDetector \<notin> set pre'"
    by (cases p, auto)+
  have "dropWhile (\<lambda>p. p \<noteq> LanguageDetector) (pre' @ LanguageDetector # rest) = LanguageDetector # rest"
    using pre' by (subst dropWhile_append2) auto
  with assms(1) Cons p show ?thesis
    by simp
qed

lemma obj_step_language_top:
  "obj_step c LanguageDetector a =
     (case top_language c (text a) of
        Inl e \<Rightarrow> Inl e
      | Inr None \<Rightarrow> Inr a
      | Inr (Some l) \<Rightarrow> Inr (a\<lparr>language := Some l\<rparr>))"
  by (simp add: obj_step_def top_language_def split: sum.splits)

lemma obj_run_two_phase:
  assumes "LanguageDetector \<notin> set pre"
  shows "obj_run c (pre @ LanguageDetector # rest) a =
     two_phase c (SentimentDetector \<in> set pre) (SentimentDetector \<in> set rest) a"
proof -
  let ?sb = "sentiment_block c (SentimentDetector \<in> set pre) a"
  have pre: "obj_run c pre a = ?sb"
    using assms by (intro obj_run_quiet) simp
  show ?thesis
  proof (cases "snd ?sb")
    case (Some e)
    then show ?thesis
      by (simp add: obj_run_append pre two_phase_def)
  next
    case None
    show ?thesis
    proof (cases "obj_step c LanguageDetector (fst ?sb)")
      case (Inl e)
      with None show ?thesis
        by (simp add: obj_run_append pre two_phase_def)
    next
      case (Inr d)
      have "obj_step c LanguageDetector d = Inr d"
        using Inr by (rule obj_step_language_twice)
      then have "obj_run c rest d = sentiment_block c (SentimentDetector \<in> set rest) d"
        by (intro obj_run_quiet) simp
      with None Inr show ?thesis
        by (simp add: obj_run_append pre two_phase_def)
    qed
  qed
qed

lemma two_phase_twice:
  assumes "b1 \<longrightarrow> b2"
  shows "two_phase c b1 b2 (fst (two_phase c b1 b2 a)) = two_phase c b1 b2 a"
proof (cases "top_language c (text a)")
  case (Inl e)
  show ?thesis
  proof (cases "polarity c (text a)")
    case (Inl e')
    with \<open>top_language c (text a) = Inl e\<close> show ?thesis
      by (auto simp add: two_phase_def sentiment_block_def obj_step_language_top)
  next
    case (Inr s)
    with \<open>top_language c (text a) = Inl e\<close> show ?thesis
      by (auto simp add: two_phase_def sentiment_block_def obj_step_language_top)
  qed
next
  case (Inr top)
  show ?thesis
  proof (cases "polarity c (text a)")
    case (Inl e')
    with Inr assms show ?thesis
      by (cases top) (auto simp add: two_phase_def sentiment_block_def obj_step_language_top)
  next
    case (Inr s)
    with \<open>top_language c (text a) = Inr top\<close> assms show ?thesis
      by (cases top) (auto simp add: two_phase_def sentiment_block_def obj_step_language_top)
  qed
qed

lemma obj_run_twice:
  assumes "rerun_safe ps"
  shows "obj_run c ps (fst (obj_run c ps a)) = obj_run c ps a"
proof (cases "LanguageDetector \<in> set ps")
  case False
  then have "obj_run c ps b = sentiment_block c (SentimentDetector \<in> set ps) b" for b
    by (intro obj_run_quiet) simp
  then show ?thesis
    by (simp add: sentiment_block_twice)
next
  case True
  then obtain pre rest where ps: "ps = pre @ LanguageDetector # rest"
    and pre: "LanguageDetector \<notin> set pre"
    by (blast dest: split_list_first)
  have ord: "SentimentDetector \<in> set pre \<longrightarrow> SentimentDetector \<in> set rest"
    using assms rerun_safe_split [of pre rest] pre by (simp add: ps)
  show ?thesis
    unfolding ps obj_run_two_phase [OF pre] by (rule two_phase_twice [OF ord])
qed

text \<open>
  The orders excluded by \<open>rerun_safe\<close> are excluded with reason: for each of them a second
  run on a fresh English record adds the sentiment that the first run left unset.
\<close>

lemma rerun_unsafe_split:
  assumes "\<not> rerun_safe ps"
  shows "\<exists>pre rest. ps = pre @ LanguageDetector # rest \<and> LanguageDetector \<notin> set pre \<and>
           SentimentDetector \<in> set pre \<and> SentimentDetector \<notin> set rest"
proof -
  from assms obtain ps' where ps: "ps = SentimentDetector # ps'"
    and l: "LanguageDetector \<in> set ps'"
    and s: "SentimentDetector \<notin> set (dropWhile (\<lambda>p. p \<noteq> LanguageDetector) ps')"
    by (cases ps rule: rerun_safe.cases) auto
  from l obtain pre' rest where ps': "ps' = pre' @ LanguageDetector # rest"
    and pre': "LanguageDetector \<notin> set pre'"
    by (blast dest: split_list_first)
  have "dropWhile (\<lambda>p. p \<noteq> LanguageDetector) ps' = LanguageDetector # rest"
    unfolding ps' using pre' by (subst dropWhile_append2) auto
  with s have "SentimentDetector \<notin> set rest" by simp
  then have "ps = (SentimentDetector # pre') @ LanguageDetector # rest \<and>
      LanguageDetector \<notin> set (SentimentDetector # pre') \<and>
      SentimentDetector \<in> set (SentimentDetector # pre') \<and> SentimentDetector \<notin> set rest"
    using ps ps' pre' by simp
  then show ?thesis by blast
qed

lemma rerun_unsafe_differs:
  assumes "\<not> rerun_safe ps" and g: "global_processors g = Some ps"
  shows "sentiment (objects (final (run self g example_collaborators [0] example_state)) 0) = None \<and>
     sentiment (objects (final (run self g example_collaborators [0]
       (final (run self g example_collaborators [0] example_state)))) 0) = Some 0.75"
proof -
  let ?c = example_collaborators
  let ?a = "TextObject ''Hello'' None None"
  let ?b = "TextObject ''Hello'' (Some ''en'') None"
  let ?d = "TextObject ''Hello'' (Some ''en'') (Some 0.75)"
  from assms(1) obtain pre rest where ps: "ps = pre @ LanguageDetector # rest"
    and pre: "LanguageDetector \<notin> set pre"
    and b1: "SentimentDetector \<in> set pre" and b2: "SentimentDetector \<notin> set rest"
    using rerun_unsafe_split by blast
  have G: "obj_run ?c ps x = two_phase ?c True False x" for x
    unfolding ps obj_run_two_phase [OF pre] using b1 b2 by simp
  have top: "top_language ?c ''Hello'' = Inr (Some ''en'')"
    by (simp add: top_language_def example_defs index0_def sorted_reverse_def)
  have pol: "polarity ?c ''Hello'' = Inr 0.75"
    by (simp add: example_defs)
  have first: "obj_run ?c ps ?a = (?b, None)"
    by (simp add: G two_phase_def sentiment_block_def obj_step_language_top top pol TextObject_def)
  have second: "obj_run ?c ps ?b = (?d, None)"
    by (simp add: G two_phase_def sentiment_block_def obj_step_language_top top pol TextObject_def)
  have o0: "objects example_state 0 = ?a"
    by (simp add: example_state_def example_objects_def)
  let ?st1 = "final (run_texts ?c g [0] example_state)"
  have one: "objects ?st1 = (objects example_state)(0 := ?b)"
    using run_texts_store [OF g, of ?c "[0]" example_state] by (simp add: o0 first)
  then have o1: "objects ?st1 0 = ?b"
    by simp
  have two: "objects (final (run_texts ?c g [0] ?st1)) = (objects ?st1)(0 := ?d)"
    using run_texts_store [OF g, of ?c "[0]" ?st1] by (simp add: o1 second)
  show ?thesis
    unfolding run_def two one by (simp add: TextObject_def)
qed

subsection \<open>The sequence that run iterates\<close>

text \<open>
  The Pipeline object plays no part in a run; and a run over an empty global sequence
  returns the state it was given.
\<close>

lemma run_ignores_own_processors: "run self g c texts st = run self' g c texts st"
  by (simp add: run_def)

lemma run_no_global_processors:
  "global_processors g = Some [] \<Longrightarrow> run self g c texts st = Inr st"
  unfolding run_def
  by (induction texts) (simp_all add: run_texts_Cons)

section \<open>The claims\<close>

subsection \<open>C1: which processor sequence run applies\<close>

text \<open>
  C1. A Pipeline constructed with a sequence of processors should apply each processor of
  its own sequence to each record, in that order. The code does not: \<^verbatim>\<open>run\<close> iterates the
  module-level name \<^verbatim>\<open>processors\<close> and never reads \<^verbatim>\<open>self.processors\<close>. A Pipeline built with
  \<^verbatim>\<open>[LanguageDetector()]\<close>, run on one fresh record while the global \<^verbatim>\<open>processors\<close> is
  \<^verbatim>\<open>[SentimentDetector()]\<close>, makes exactly one call, to the SentimentDetector, and the language
  stays unset; with the global unbound the same call raises \<^verbatim>\<open>NameError\<close>.
\<close>

theorem run_iterates_global_not_own_processors:
  "calls (trace (final (run \<lparr>processors = [LanguageDetector]\<rparr>
      \<lparr>global_processors = Some [SentimentDetector]\<rparr> example_collaborators [0] example_state))) =
     [(0, SentimentDetector)] \<and>
   language (objects (final (run \<lparr>processors = [LanguageDetector]\<rparr>
      \<lparr>global_processors = Some [SentimentDetector]\<rparr> example_collaborators [0] example_state)) 0) = None \<and>
   raised (run \<lparr>processors = [LanguageDetector]\<rparr> \<lparr>global_processors = None\<rparr>
      example_collaborators [0] example_state) = Some NameError"
  by (simp add: example_defs run_def run_texts.simps run_processors.simps
        SentimentDetector_process_def emit_def)

subsection \<open>C2: a Pipeline constructed with no processors\<close>

text \<open>
  C2. Running a Pipeline that was constructed with an empty processor sequence should
  leave every field of every record unchanged. The code does not, for the reason of C1:
  the Pipeline built with \<^verbatim>\<open>[]\<close> runs whatever the global \<^verbatim>\<open>processors\<close> holds. With the
  global \<^verbatim>\<open>[LanguageDetector()]\<close> the language of a fresh record goes from unset to \<^verbatim>\<open>en\<close>.
\<close>

theorem run_of_empty_pipeline_changes_record:
  "language (objects example_state 0) = None \<and>
   language (objects (final (run \<lparr>processors = []\<rparr> \<lparr>global_processors = Some [LanguageDetector]\<rparr>
      example_collaborators [0] example_state)) 0) = Some ''en''"
  by (simp add: example_defs run_def run_texts.simps run_processors.simps
        LanguageDetector_process_def index0_def sorted_reverse_def)

subsection \<open>C3: SentimentDetector.process\<close>

text \<open>
  C3. \<^verbatim>\<open>SentimentDetector.process\<close> writes the polarity that the sentiment library returns for
  the record's text into \<^verbatim>\<open>sentiment\<close> exactly when the record's language equals \<^verbatim>\<open>en\<close>. With
  that language and a library that returns \<open>s\<close>, the call returns, the sentiment is \<open>s\<close> and
  the trace grows by the one library call; when the library raises instead, the exception
  leaves the method and no record has changed. With any other language, unset included,
  the call returns the state it was given: the sentiment is what it was (unset stays
  unset) and the trace has no new event, so no library was called.
\<close>

theorem SentimentDetector_process_en_only:
  "(language (objects st r) = Some ''en'' \<longrightarrow>
      (\<forall>s. polarity c (text (objects st r)) = Inr s \<longrightarrow>
         raised (SentimentDetector_process c r st) = None \<and>
         sentiment (objects (final (SentimentDetector_process c r st)) r) = Some s \<and>
         trace (final (SentimentDetector_process c r st)) = trace st @ [Call_polarity (text (objects st r))]) \<and>
      (\<forall>e. polarity c (text (objects st r)) = Inl e \<longrightarrow>
         raised (SentimentDetector_process c r st) = Some e \<and>
         objects (final (SentimentDetector_process c r st)) = objects st)) \<and>
   (language (objects st r) \<noteq> Some ''en'' \<longrightarrow>
      SentimentDetector_process c r st = Inr st \<and>
      sentiment (objects (final (SentimentDetector_process c r st)) r) = sentiment (objects st r) \<and>
      trace (final (SentimentDetector_process c r st)) = trace st)"
  by (simp add: SentimentDetector_process_def Let_def)

theorem SentimentDetector_process_en_only_witness:
  "language (objects example_state 3) = Some ''en'' \<and>
   polarity example_collaborators (text (objects example_state 3)) = Inr 0.75 \<and>
   sentiment (objects (final (SentimentDetector_process example_collaborators 3 example_state)) 3) = Some 0.75 \<and>
   language (objects example_state 1) \<noteq> Some ''en'' \<and>
   SentimentDetector_process example_collaborators 1 example_state = Inr example_state"
  using SentimentDetector_process_en_only [of example_state 3 example_collaborators]
    SentimentDetector_process_en_only [of example_state 1 example_collaborators]
  by (simp add: example_defs)

subsection \<open>C4: LanguageDetector.process\<close>

text \<open>
  C4. When the language library returns candidates \<open>ds\<close> for the record's text,
  \<^verbatim>\<open>LanguageDetector.process\<close> returns normally; if \<open>ds\<close> is not empty, the language it has written
  is the code of a candidate of \<open>ds\<close> whose confidence no candidate of \<open>ds\<close> exceeds; if \<open>ds\<close> is
  empty, no field of any record has changed, so an unset language is still unset. The text
  need not be non-empty for this.
\<close>

theorem LanguageDetector_process_best:
  assumes "detect_langs c (text (objects st r)) = Inr ds"
  shows "raised (LanguageDetector_process c r st) = None \<and>
     (ds = [] \<longrightarrow> objects (final (LanguageDetector_process c r st)) = objects st) \<and>
     (ds \<noteq> [] \<longrightarrow>
        (\<exists>d \<in> set ds.
           language (objects (final (LanguageDetector_process c r st)) r) = Some (lang d) \<and>
           (\<forall>d' \<in> set ds. prob d' \<le> prob d)))"
proof (cases "ds = []")
  case True
  with assms show ?thesis
    by (simp add: LanguageDetector_process_def Let_def)
next
  case False
  then obtain d where d: "d \<in> set ds" "index0 (sorted_reverse prob ds) = Inr d"
    "\<forall>y \<in> set ds. prob y \<le> prob d"
    using index0_sorted_reverse [of ds prob] by blast
  with assms False show ?thesis
    by (auto simp add: LanguageDetector_process_def Let_def)
qed

theorem LanguageDetector_process_best_witness:
  "detect_langs example_collaborators (text (objects example_state 0)) =
     Inr [\<lparr>lang = ''fr'', prob = 0.2\<rparr>, \<lparr>lang = ''en'', prob = 0.4\<rparr>, \<lparr>lang = ''de'', prob = 0.4\<rparr>] \<and>
   raised (LanguageDetector_process example_collaborators 0 example_state) = None \<and>
   language (objects (final (LanguageDetector_process example_collaborators 0 example_state)) 0) = Some ''en'' \<and>
   detect_langs example_collaborators (text (objects example_state 4)) = Inr [] \<and>
   objects (final (LanguageDetector_process example_collaborators 4 example_state)) = objects example_state"
proof -
  have a: "detect_langs example_collaborators (text (objects example_state 0)) =
     Inr [\<lparr>lang = ''fr'', prob = 0.2\<rparr>, \<lparr>lang = ''en'', prob = 0.4\<rparr>, \<lparr>lang = ''de'', prob = 0.4\<rparr>]"
    by (simp add: example_defs)
  have b: "detect_langs example_collaborators (text (objects example_state 4)) = Inr []"
    by (simp add: example_defs)
  have "language (objects (final (LanguageDetector_process example_collaborators 0 example_state)) 0) = Some ''en''"
    by (simp add: example_defs LanguageDetector_process_def index0_def sorted_reverse_def)
  then show ?thesis
    using LanguageDetector_process_best [OF a] LanguageDetector_process_best [OF b] a b
    by simp
qed

subsection \<open>C5: when process raises\<close>

text \<open>
  C5 says that \<^verbatim>\<open>process\<close> never throws for a record with a string text, the empty string
  included. The processors handle no exception, so whatever the library raises leaves
  \<^verbatim>\<open>process\<close>: with a language library that raises on the empty text, the LanguageDetector
  raises on the record whose text is empty.
\<close>

theorem process_raises_on_empty_text:
  "text (objects example_state 2) = '''' \<and>
   raised (process example_collaborators LanguageDetector 2 example_state) = Some LangDetectException"
  by (simp add: example_defs LanguageDetector_process_def)

text \<open>
  C5, amended. \<^verbatim>\<open>process\<close> always terminates (the model is a total function), and it raises
  \<open>e\<close> exactly when the library it calls raises \<open>e\<close> on the record's text: the language
  library for a LanguageDetector, the sentiment library for a SentimentDetector on a record
  whose language is \<^verbatim>\<open>en\<close>. In particular the index \<^verbatim>\<open>[0]\<close> never raises. When \<^verbatim>\<open>process\<close> raises,
  no field of any record has changed; and when the language library returns no candidate
  (for an empty text or any other), the LanguageDetector returns with every field as it
  was.
\<close>

theorem process_raises_only_with_collaborator:
  "(raised (process c p r st) = Some e \<longleftrightarrow>
      (p = LanguageDetector \<and> detect_langs c (text (objects st r)) = Inl e) \<or>
      (p = SentimentDetector \<and> language (objects st r) = Some ''en'' \<and>
         polarity c (text (objects st r)) = Inl e)) \<and>
   (raised (process c p r st) \<noteq> None \<longrightarrow> objects (final (process c p r st)) = objects st) \<and>
   (p = LanguageDetector \<and> detect_langs c (text (objects st r)) = Inr [] \<longrightarrow>
      raised (process c p r st) = None \<and> objects (final (process c p r st)) = objects st)"
proof (cases p)
  case LanguageDetector
  show ?thesis
  proof (cases "detect_langs c (text (objects st r))")
    case (Inl e')
    with LanguageDetector show ?thesis
      by (auto simp add: LanguageDetector_process_cases)
  next
    case (Inr ds)
    show ?thesis
    proof (cases "ds = []")
      case True
      with Inr LanguageDetector show ?thesis
        by (simp add: LanguageDetector_process_cases)
    next
      case False
      then obtain d where "index0 (sorted_reverse prob ds) = Inr d"
        using index0_sorted_reverse [of ds prob] by blast
      with False Inr LanguageDetector show ?thesis
        by (simp add: LanguageDetector_process_cases)
    qed
  qed
next
  case SentimentDetector
  then show ?thesis
    by (auto simp add: SentimentDetector_process_def Let_def split: sum.splits)
qed

theorem process_raises_only_with_collaborator_witness:
  "detect_langs example_collaborators (text (objects example_state 2)) = Inl LangDetectException \<and>
   raised (process example_collaborators LanguageDetector 2 example_state) = Some LangDetectException \<and>
   objects (final (process example_collaborators LanguageDetector 2 example_state)) = objects example_state \<and>
   detect_langs example_collaborators (text (objects example_state 4)) = Inr [] \<and>
   raised (process example_collaborators LanguageDetector 4 example_state) = None \<and>
   objects (final (process example_collaborators LanguageDetector 4 example_state)) = objects example_state \<and>
   raised (process example_collaborators SentimentDetector 3 example_state) = None"
proof -
  have a: "detect_langs example_collaborators (text (objects example_state 2)) = Inl LangDetectException"
    by (simp add: example_defs)
  have b: "detect_langs example_collaborators (text (objects example_state 4)) = Inr []"
    by (simp add: example_defs)
  have d: "polarity example_collaborators (text (objects example_state 3)) = Inr 0.75"
    by (simp add: example_defs)
  have "raised (process example_collaborators SentimentDetector 3 example_state) \<noteq> Some e" for e
    using d process_raises_only_with_collaborator [of example_collaborators SentimentDetector 3 example_state e]
    by simp
  then have "raised (process example_collaborators SentimentDetector 3 example_state) = None"
    by (cases "raised (process example_collaborators SentimentDetector 3 example_state)") auto
  then show ?thesis
    using a b
      process_raises_only_with_collaborator [of example_collaborators LanguageDetector 2 example_state LangDetectException]
      process_raises_only_with_collaborator [of example_collaborators LanguageDetector 4 example_state LangDetectException]
    by simp
qed

subsection \<open>C6: running twice\<close>

text \<open>
  C6 says that running \<^verbatim>\<open>run\<close> twice on the same records gives the same final fields as
  running it once. For a sequence in which the SentimentDetector comes before the
  LanguageDetector it does not: the first run on a fresh English record finds the language
  unset when the SentimentDetector is called and sets the language afterwards, so the
  sentiment is unset after one run and set after two.
\<close>

theorem run_twice_differs_sentiment_first:
  "sentiment (objects (final (run \<lparr>processors = [SentimentDetector, LanguageDetector]\<rparr>
      \<lparr>global_processors = Some [SentimentDetector, LanguageDetector]\<rparr>
      example_collaborators [0] example_state)) 0) = None \<and>
   sentiment (objects (final (run \<lparr>processors = [SentimentDetector, LanguageDetector]\<rparr>
      \<lparr>global_processors = Some [SentimentDetector, LanguageDetector]\<rparr>
      example_collaborators [0]
      (final (run \<lparr>processors = [SentimentDetector, LanguageDetector]\<rparr>
         \<lparr>global_processors = Some [SentimentDetector, LanguageDetector]\<rparr>
         example_collaborators [0] example_state)))) 0) = Some 0.75"
  by (simp add: example_defs run_def run_texts.simps run_processors.simps
        LanguageDetector_process_def SentimentDetector_process_def index0_def sorted_reverse_def)

text \<open>
  C6, amended. Let the processor sequence that \<^verbatim>\<open>run\<close> iterates be any sequence but one that
  begins with a SentimentDetector, contains a LanguageDetector and has no SentimentDetector
  after its first LanguageDetector (the notebook's \<^verbatim>\<open>[LanguageDetector(), SentimentDetector()]\<close>
  is allowed). Then for every list of records, with repetitions or not, and for
  libraries that are functions of the text, a second run leaves every field of every
  record as the first run left it, and raises the same exception as the first or none
  as the first.
\<close>

theorem run_twice_same_as_once:
  assumes "\<forall>ps. global_processors g = Some ps \<longrightarrow> rerun_safe ps"
  shows "objects (final (run self g c texts (final (run self g c texts st)))) =
           objects (final (run self g c texts st)) \<and>
         raised (run self g c texts (final (run self g c texts st))) = raised (run self g c texts st)"
proof (cases "global_processors g")
  case None
  then show ?thesis
    by (simp add: run_def run_texts_unbound)
next
  case (Some ps)
  with assms have "rerun_safe ps" by simp
  then have idem: "obj_run c ps (fst (obj_run c ps a)) = obj_run c ps a" for a
    by (rule obj_run_twice)
  let ?G = "obj_run c ps"
  let ?st1 = "final (run_texts c g texts st)"
  have one: "objects ?st1 = fst (store_run ?G texts (objects st))"
    and r1: "raised (run_texts c g texts st) = snd (store_run ?G texts (objects st))"
    using run_texts_store [OF Some, of c texts st] by blast+
  have two: "objects (final (run_texts c g texts ?st1)) = fst (store_run ?G texts (objects ?st1))"
    and r2: "raised (run_texts c g texts ?st1) = snd (store_run ?G texts (objects ?st1))"
    using run_texts_store [OF Some, of c texts ?st1] by blast+
  have "store_run ?G texts (objects ?st1) = store_run ?G texts (objects st)"
    unfolding one using idem by (rule store_run_twice)
  then show ?thesis
    unfolding run_def two r2 one r1 by simp
qed

theorem run_twice_same_as_once_witness:
  "rerun_safe [LanguageDetector, SentimentDetector] \<and>
   objects (final (run \<lparr>processors = [LanguageDetector, SentimentDetector]\<rparr>
      \<lparr>global_processors = Some [LanguageDetector, SentimentDetector]\<rparr>
      example_collaborators [0, 1, 0]
      (final (run \<lparr>processors = [LanguageDetector, SentimentDetector]\<rparr>
         \<lparr>global_processors = Some [LanguageDetector, SentimentDetector]\<rparr>
         example_collaborators [0, 1, 0] example_state)))) =
   objects (final (run \<lparr>processors = [LanguageDetector, SentimentDetector]\<rparr>
      \<lparr>global_processors = Some [LanguageDetector, SentimentDetector]\<rparr>
      example_collaborators [0, 1, 0] example_state)) \<and>
   sentiment (objects (final (run \<lparr>processors = [LanguageDetector, SentimentDetector]\<rparr>
      \<lparr>global_processors = Some [LanguageDetector, SentimentDetector]\<rparr>
      example_collaborators [0, 1, 0] example_state)) 0) = Some 0.75"
proof -
  have safe: "\<forall>ps. global_processors \<lparr>global_processors = Some [LanguageDetector, SentimentDetector]\<rparr> = Some ps
      \<longrightarrow> rerun_safe ps"
    by simp
  have s: "sentiment (objects (final (run \<lparr>processors = [LanguageDetector, SentimentDetector]\<rparr>
      \<lparr>global_processors = Some [LanguageDetector, SentimentDetector]\<rparr>
      example_collaborators [0, 1, 0] example_state)) 0) = Some 0.75"
    by (simp add: example_defs run_def run_texts.simps run_processors.simps
          LanguageDetector_process_def SentimentDetector_process_def index0_def sorted_reverse_def)
  show ?thesis
    using s run_twice_same_as_once [OF safe, of "\<lparr>processors = [LanguageDetector, SentimentDetector]\<rparr>"
        example_collaborators "[0, 1, 0]" example_state]
    by simp
qed

subsection \<open>C7: fields start unset and are never cleared\<close>

text \<open>
  C7. A record constructed from its text alone has \<^verbatim>\<open>language\<close> and \<^verbatim>\<open>sentiment\<close> unset. For
  every record of the store, a language that is set before a call of \<^verbatim>\<open>process\<close> is set
  after it, and so is a sentiment, whether the call returns or raises; the same holds
  across a whole \<^verbatim>\<open>run\<close>.
\<close>

theorem set_fields_stay_set:
  "language (TextObject t None None) = None \<and> sentiment (TextObject t None None) = None \<and>
   (language (objects st r') \<noteq> None \<longrightarrow> language (objects (final (process c p r st)) r') \<noteq> None) \<and>
   (sentiment (objects st r') \<noteq> None \<longrightarrow> sentiment (objects (final (process c p r st)) r') \<noteq> None) \<and>
   (language (objects st r') \<noteq> None \<longrightarrow> language (objects (final (run self g c texts st)) r') \<noteq> None) \<and>
   (sentiment (objects st r') \<noteq> None \<longrightarrow> sentiment (objects (final (run self g c texts st)) r') \<noteq> None)"
  using process_fills [of st r' c p r] run_texts_fills [of st r' c g texts]
  by (simp add: fills_def TextObject_def run_def)

theorem set_fields_stay_set_witness:
  "language (objects example_state 3) \<noteq> None \<and>
   language (objects (final (process example_collaborators LanguageDetector 3 example_state)) 3) \<noteq> None \<and>
   sentiment (objects example_state 4) \<noteq> None \<and>
   sentiment (objects (final (process example_collaborators SentimentDetector 4 example_state)) 4) \<noteq> None \<and>
   language (objects (final (run \<lparr>processors = []\<rparr> \<lparr>global_processors = Some [LanguageDetector, SentimentDetector]\<rparr>
      example_collaborators [3, 4] example_state)) 3) \<noteq> None \<and>
   sentiment (objects (final (run \<lparr>processors = []\<rparr> \<lparr>global_processors = Some [LanguageDetector, SentimentDetector]\<rparr>
      example_collaborators [3, 4] example_state)) 4) \<noteq> None"
proof -
  have a: "language (objects example_state 3) \<noteq> None" "sentiment (objects example_state 4) \<noteq> None"
    by (simp_all add: example_defs)
  show ?thesis
    using a
      set_fields_stay_set [of "''Hello''" example_state 3 example_collaborators LanguageDetector 3
        "\<lparr>processors = []\<rparr>" "\<lparr>global_processors = Some [LanguageDetector, SentimentDetector]\<rparr>" "[3, 4]"]
      set_fields_stay_set [of "''Hello''" example_state 4 example_collaborators SentimentDetector 4
        "\<lparr>processors = []\<rparr>" "\<lparr>global_processors = Some [LanguageDetector, SentimentDetector]\<rparr>" "[3, 4]"]
    by simp
qed

subsection \<open>C8: the text is never written\<close>

text \<open>
  C8. For every record of the store, the text after a call of \<^verbatim>\<open>process\<close>, after the inner
  loop over any processors on any record, and after a whole \<^verbatim>\<open>run\<close>, is the text before it,
  whether the call returns or raises.
\<close>

theorem text_never_modified:
  "text (objects (final (process c p r st)) r') = text (objects st r') \<and>
   text (objects (final (run_processors c ps r st)) r') = text (objects st r') \<and>
   text (objects (final (run self g c texts st)) r') = text (objects st r')"
  using process_fills [of st r' c p r] run_processors_fills [of st r' c ps r]
    run_texts_fills [of st r' c g texts]
  by (simp add: fills_def run_def)

theorem text_never_modified_witness:
  "text (objects (final (run \<lparr>processors = [LanguageDetector, SentimentDetector]\<rparr>
      \<lparr>global_processors = Some [LanguageDetector, SentimentDetector]\<rparr>
      example_collaborators [0, 1] example_state)) 0) = ''Hello''"
  using text_never_modified [of example_collaborators LanguageDetector 0 example_state 0 "[]"
      "\<lparr>processors = [LanguageDetector, SentimentDetector]\<rparr>"
      "\<lparr>global_processors = Some [LanguageDetector, SentimentDetector]\<rparr>" "[0, 1]"]
  by (simp add: example_defs)

subsection \<open>C9: the records of the list stay in place\<close>

text \<open>
  C9. \<^verbatim>\<open>run\<close> only iterates the list it is given; it is an argument that no call writes, so
  after the run the list holds the references it held, in their order. What the caller
  observes through them is a sequence of as many records as before whose texts, position
  by position, are the texts before the run: none dropped, none added, none moved. A
  record that is not in the list is left exactly as it was.
\<close>

theorem run_keeps_records_in_place:
  "length (observe (final (run self g c texts st)) texts) = length (observe st texts) \<and>
   map text (observe (final (run self g c texts st)) texts) = map text (observe st texts) \<and>
   (\<forall>r. r \<notin> set texts \<longrightarrow> objects (final (run self g c texts st)) r = objects st r)"
proof -
  have "text (objects (final (run_texts c g texts st)) r) = text (objects st r)" for r
    using run_texts_fills [of st r c g texts] by (simp add: fills_def)
  then show ?thesis
    by (simp add: observe_def run_def run_texts_frame)
qed

theorem run_keeps_records_in_place_witness:
  "map text (observe (final (run \<lparr>processors = [LanguageDetector, SentimentDetector]\<rparr>
      \<lparr>global_processors = Some [LanguageDetector, SentimentDetector]\<rparr>
      example_collaborators [1, 0] example_state)) [1, 0]) = [''Hallo'', ''Hello''] \<and>
   objects (final (run \<lparr>processors = [LanguageDetector, SentimentDetector]\<rparr>
      \<lparr>global_processors = Some [LanguageDetector, SentimentDetector]\<rparr>
      example_collaborators [1, 0] example_state)) 3 = objects example_state 3"
  using run_keeps_records_in_place [of "\<lparr>processors = [LanguageDetector, SentimentDetector]\<rparr>"
      "\<lparr>global_processors = Some [LanguageDetector, SentimentDetector]\<rparr>"
      example_collaborators "[1, 0]" example_state]
  by (simp add: example_defs observe_def)

subsection \<open>C10: run is record-major\<close>

text \<open>
  C10. Whatever processor sequence \<open>ps\<close> the run iterates, the run is the application of
  \<^verbatim>\<open>process\<close>, one call after the other, along the record-major list of pairs: for each
  record of the list in order, all processors of \<open>ps\<close> in order on that record. So every
  processor has been applied to one record, with its effect on the store, before any is
  applied to the next, and the run returns or raises exactly as that sequence of
  applications does. Accordingly the calls recorded in the trace are that list when the
  run returns, and an initial part of it when the run raises.
\<close>

theorem run_record_major:
  assumes "global_processors g = Some ps"
  shows "run self g c texts st = apply_calls c (concat (map (\<lambda>r. map (Pair r) ps) texts)) st \<and>
         prefix (calls (trace (final (run self g c texts st))))
           (calls (trace st) @ concat (map (\<lambda>r. map (Pair r) ps) texts)) \<and>
         (raised (run self g c texts st) = None \<longrightarrow>
            calls (trace (final (run self g c texts st))) =
              calls (trace st) @ concat (map (\<lambda>r. map (Pair r) ps) texts))"
  using run_texts_calls [OF assms, of c texts st] run_texts_calls_prefix [OF assms, of c texts st]
    run_texts_apply_calls [OF assms, of c texts st]
  by (simp add: run_def)

theorem run_record_major_witness:
  "run \<lparr>processors = [LanguageDetector, SentimentDetector]\<rparr>
      \<lparr>global_processors = Some [LanguageDetector, SentimentDetector]\<rparr>
      example_collaborators [0, 1] example_state =
     apply_calls example_collaborators
       [(0, LanguageDetector), (0, SentimentDetector), (1, LanguageDetector), (1, SentimentDetector)]
       example_state \<and>
   raised (run \<lparr>processors = [LanguageDetector, SentimentDetector]\<rparr>
      \<lparr>global_processors = Some [LanguageDetector, SentimentDetector]\<rparr>
      example_collaborators [0, 1] example_state) = None \<and>
   calls (trace (final (run \<lparr>processors = [LanguageDetector, SentimentDetector]\<rparr>
      \<lparr>global_processors = Some [LanguageDetector, SentimentDetector]\<rparr>
      example_collaborators [0, 1] example_state))) =
     [(0, LanguageDetector), (0, SentimentDetector), (1, LanguageDetector), (1, SentimentDetector)] \<and>
   language (objects (final (apply_calls example_collaborators
       [(0, LanguageDetector), (0, SentimentDetector), (1, LanguageDetector), (1, SentimentDetector)]
       example_state)) 0) = Some ''en'' \<and>
   sentiment (objects (final (apply_calls example_collaborators
       [(0, LanguageDetector), (0, SentimentDetector), (1, LanguageDetector), (1, SentimentDetector)]
       example_state)) 0) = Some 0.75 \<and>
   language (objects (final (apply_calls example_collaborators
       [(0, LanguageDetector), (0, SentimentDetector), (1, LanguageDetector), (1, SentimentDetector)]
       example_state)) 1) = Some ''de''"
proof -
  have g: "global_processors \<lparr>global_processors = Some [LanguageDetector, SentimentDetector]\<rparr> =
      Some [LanguageDetector, SentimentDetector]"
    by simp
  have ok: "raised (run \<lparr>processors = [LanguageDetector, SentimentDetector]\<rparr>
      \<lparr>global_processors = Some [LanguageDetector, SentimentDetector]\<rparr>
      example_collaborators [0, 1] example_state) = None"
    by (simp add: example_defs run_def run_texts.simps run_processors.simps
          LanguageDetector_process_def SentimentDetector_process_def index0_def sorted_reverse_def)
  have eff: "language (objects (final (apply_calls example_collaborators
       [(0, LanguageDetector), (0, SentimentDetector), (1, LanguageDetector), (1, SentimentDetector)]
       example_state)) 0) = Some ''en''"
    "sentiment (objects (final (apply_calls example_collaborators
       [(0, LanguageDetector), (0, SentimentDetector), (1, LanguageDetector), (1, SentimentDetector)]
       example_state)) 0) = Some 0.75"
    "language (objects (final (apply_calls example_collaborators
       [(0, LanguageDetector), (0, SentimentDetector), (1, LanguageDetector), (1, SentimentDetector)]
       example_state)) 1) = Some ''de''"
    by (simp_all add: example_defs LanguageDetector_process_def SentimentDetector_process_def
          index0_def sorted_reverse_def)
  have tr: "trace example_state = []"
    by (simp add: example_state_def)
  note th = run_record_major [OF g, of "\<lparr>processors = [LanguageDetector, SentimentDetector]\<rparr>"
      example_collaborators "[0, 1]" example_state]
  have c1: "run \<lparr>processors = [LanguageDetector, SentimentDetector]\<rparr>
      \<lparr>global_processors = Some [LanguageDetector, SentimentDetector]\<rparr>
      example_collaborators [0, 1] example_state =
     apply_calls example_collaborators
       [(0, LanguageDetector), (0, SentimentDetector), (1, LanguageDetector), (1, SentimentDetector)]
       example_state"
    using th [THEN conjunct1] by simp
  have c2: "calls (trace (final (run \<lparr>processors = [LanguageDetector, SentimentDetector]\<rparr>
      \<lparr>global_processors = Some [LanguageDetector, SentimentDetector]\<rparr>
      example_collaborators [0, 1] example_state))) =
     [(0, LanguageDetector), (0, SentimentDetector), (1, LanguageDetector), (1, SentimentDetector)]"
    using th [THEN conjunct2, THEN conjunct2] ok by (simp add: tr)
  show ?thesis
    by (intro conjI c1 ok c2 eff)
qed

end
